theory Spec2Isabelle
  imports Complex_Main
begin

section \<open>Praise cards: the card-rendering pipeline\<close>

text \<open>
  The repository holds three pages: the paginated praise wall, the live praise wall and the
  card generator. Each page carries its own copy of the rendering helpers. This theory embeds
  the helpers and the two compositors the properties below are about.

  Conventions of the embedding:
  \<^item> a JavaScript number is a \<^typ>\<open>real\<close>: arithmetic is exact, there is no rounding, no
    \<open>NaN\<close> and no infinity;
  \<^item> a JavaScript string is the list of its code points (\<open>for (const ch of tok)\<close> walks a
    string by code point); \<open>str\<close> reads an ASCII literal;
  \<^item> the 2D canvas context is an external collaborator. What the code asks of it is kept
    explicit: the width \<open>measureText\<close> reports for a string under the current font, and the
    pixel bytes \<open>getImageData\<close> reads back. What the code tells it is the list of drawing
    calls, in order.
\<close>

subsection \<open>Strings\<close>

type_synonym jsstring = "nat list"

definition str :: "string \<Rightarrow> jsstring" where
  "str s = map of_char s"

text \<open>The characters matched by \<open>\s\<close> in a regular expression, and removed by \<open>trim()\<close>.\<close>

definition isWhiteSpace :: "nat \<Rightarrow> bool" where
  "isWhiteSpace c \<longleftrightarrow>
     c \<in> {9, 10, 11, 12, 13, 32, 160, 5760, 8232, 8233, 8239, 8287, 12288, 65279}
     \<or> (8192 \<le> c \<and> c \<le> 8202)"

text \<open>
  \<open>text.split(/\s+/)\<close>: the fields between maximal runs of white space. The first argument is
  the field read so far. A leading or trailing run leaves an empty field, as in JavaScript.
\<close>

function splitWs :: "jsstring \<Rightarrow> jsstring \<Rightarrow> jsstring list" where
  "splitWs field [] = [field]"
| "splitWs field (c # cs) =
     (if isWhiteSpace c then field # splitWs [] (dropWhile isWhiteSpace cs)
      else splitWs (field @ [c]) cs)"
  by pat_completeness auto
termination
  by (relation "measure (\<lambda>(field, cs). length cs)")
     (auto simp: length_dropWhile_le less_Suc_eq_le)

text \<open>A string is truthy when it is not empty (\<open>filter(Boolean)\<close>, \<open>if (current)\<close>).\<close>

definition truthy :: "jsstring \<Rightarrow> bool" where
  "truthy s \<longleftrightarrow> s \<noteq> []"

text \<open>\<open>s.trim()\<close>\<close>

definition trim :: "jsstring \<Rightarrow> jsstring" where
  "trim s = rev (dropWhile isWhiteSpace (rev (dropWhile isWhiteSpace s)))"

subsection \<open>Text layout: \<open>wrapTextSmart\<close>, paginated wall (lines 59 to 99)\<close>

text \<open>
  The argument \<open>ctx\<close> stands for the context as far as the function uses it:
  \<open>ctx s\<close> is \<open>ctx.measureText(s).width\<close> under the font set by the caller.
  The loop state is the pair of \<open>lines\<close> and \<open>current\<close> (or \<open>chunk\<close> in the inner loop).
\<close>

definition push :: "jsstring list \<times> jsstring \<Rightarrow> jsstring list \<times> jsstring" where
  "push st = (case st of (lines, current) \<Rightarrow>
     (if truthy current then lines @ [current] else lines, []))"

fun wrap_chars ::
  "(jsstring \<Rightarrow> real) \<Rightarrow> real \<Rightarrow> jsstring \<Rightarrow>
   jsstring list \<times> jsstring \<Rightarrow> jsstring list \<times> jsstring" where
  "wrap_chars ctx maxWidth [] (lines, chunk) = (lines, chunk)"
| "wrap_chars ctx maxWidth (ch # rest) (lines, chunk) =
     (let t = chunk @ [ch] in
      if ctx t \<le> maxWidth then wrap_chars ctx maxWidth rest (lines, t)
      else wrap_chars ctx maxWidth rest
             (if truthy chunk then lines @ [chunk] else lines, [ch]))"

fun wrap_tokens ::
  "(jsstring \<Rightarrow> real) \<Rightarrow> real \<Rightarrow> jsstring list \<Rightarrow>
   jsstring list \<times> jsstring \<Rightarrow> jsstring list \<times> jsstring" where
  "wrap_tokens ctx maxWidth [] (lines, current) = (lines, current)"
| "wrap_tokens ctx maxWidth (tok # toks) (lines, current) =
     (let test = (if truthy current then current @ [32] @ tok else tok) in
      if ctx test \<le> maxWidth then wrap_tokens ctx maxWidth toks (lines, test)
      else
        (case (if truthy current then push (lines, current) else (lines, current)) of
           (lines1, current1) \<Rightarrow>
             if ctx tok \<le> maxWidth then wrap_tokens ctx maxWidth toks (lines1, tok)
             else
               (case wrap_chars ctx maxWidth tok (lines1, []) of
                  (lines2, chunk) \<Rightarrow>
                    wrap_tokens ctx maxWidth toks
                      (lines2, if truthy chunk then chunk else current1))))"

definition wrapTextSmart :: "(jsstring \<Rightarrow> real) \<Rightarrow> jsstring \<Rightarrow> real \<Rightarrow> jsstring list" where
  "wrapTextSmart ctx text maxWidth =
     (let tokens = filter truthy (splitWs [] text) in
      fst (push (wrap_tokens ctx maxWidth tokens ([], []))))"

subsection \<open>\<open>wrapTextSmart\<close>, live wall (lines 908 to 948)\<close>

definition push_live :: "jsstring list \<times> jsstring \<Rightarrow> jsstring list \<times> jsstring" where
  "push_live st = (case st of (lines, current) \<Rightarrow>
     (if truthy current then lines @ [current] else lines, []))"

fun wrap_chars_live ::
  "(jsstring \<Rightarrow> real) \<Rightarrow> real \<Rightarrow> jsstring \<Rightarrow>
   jsstring list \<times> jsstring \<Rightarrow> jsstring list \<times> jsstring" where
  "wrap_chars_live ctx maxWidth [] (lines, chunk) = (lines, chunk)"
| "wrap_chars_live ctx maxWidth (ch # rest) (lines, chunk) =
     (let t = chunk @ [ch] in
      if ctx t \<le> maxWidth then wrap_chars_live ctx maxWidth rest (lines, t)
      else wrap_chars_live ctx maxWidth rest
             (if truthy chunk then lines @ [chunk] else lines, [ch]))"

fun wrap_tokens_live ::
  "(jsstring \<Rightarrow> real) \<Rightarrow> real \<Rightarrow> jsstring list \<Rightarrow>
   jsstring list \<times> jsstring \<Rightarrow> jsstring list \<times> jsstring" where
  "wrap_tokens_live ctx maxWidth [] (lines, current) = (lines, current)"
| "wrap_tokens_live ctx maxWidth (tok # toks) (lines, current) =
     (let test = (if truthy current then current @ [32] @ tok else tok) in
      if ctx test \<le> maxWidth then wrap_tokens_live ctx maxWidth toks (lines, test)
      else
        (case (if truthy current then push_live (lines, current) else (lines, current)) of
           (lines1, current1) \<Rightarrow>
             if ctx tok \<le> maxWidth then wrap_tokens_live ctx maxWidth toks (lines1, tok)
             else
               (case wrap_chars_live ctx maxWidth tok (lines1, []) of
                  (lines2, chunk) \<Rightarrow>
                    wrap_tokens_live ctx maxWidth toks
                      (lines2, if truthy chunk then chunk else current1))))"

definition wrapTextSmart_live ::
  "(jsstring \<Rightarrow> real) \<Rightarrow> jsstring \<Rightarrow> real \<Rightarrow> jsstring list" where
  "wrapTextSmart_live ctx text maxWidth =
     (let tokens = filter truthy (splitWs [] text) in
      fst (push_live (wrap_tokens_live ctx maxWidth tokens ([], []))))"

subsection \<open>\<open>wrapTextSmart\<close>, generator (lines 1819 to 1861)\<close>

definition push_gen :: "jsstring list \<times> jsstring \<Rightarrow> jsstring list \<times> jsstring" where
  "push_gen st = (case st of (lines, current) \<Rightarrow>
     (if truthy current then lines @ [current] else lines, []))"

fun wrap_chars_gen ::
  "(jsstring \<Rightarrow> real) \<Rightarrow> real \<Rightarrow> jsstring \<Rightarrow>
   jsstring list \<times> jsstring \<Rightarrow> jsstring list \<times> jsstring" where
  "wrap_chars_gen ctx maxWidth [] (lines, chunk) = (lines, chunk)"
| "wrap_chars_gen ctx maxWidth (ch # rest) (lines, chunk) =
     (let t = chunk @ [ch] in
      if ctx t \<le> maxWidth then wrap_chars_gen ctx maxWidth rest (lines, t)
      else wrap_chars_gen ctx maxWidth rest
             (if truthy chunk then lines @ [chunk] else lines, [ch]))"

fun wrap_tokens_gen ::
  "(jsstring \<Rightarrow> real) \<Rightarrow> real \<Rightarrow> jsstring list \<Rightarrow>
   jsstring list \<times> jsstring \<Rightarrow> jsstring list \<times> jsstring" where
  "wrap_tokens_gen ctx maxWidth [] (lines, current) = (lines, current)"
| "wrap_tokens_gen ctx maxWidth (tok # toks) (lines, current) =
     (let test = (if truthy current then current @ [32] @ tok else tok) in
      if ctx test \<le> maxWidth then wrap_tokens_gen ctx maxWidth toks (lines, test)
      else
        (case (if truthy current then push_gen (lines, current) else (lines, current)) of
           (lines1, current1) \<Rightarrow>
             if ctx tok \<le> maxWidth then wrap_tokens_gen ctx maxWidth toks (lines1, tok)
             else
               (case wrap_chars_gen ctx maxWidth tok (lines1, []) of
                  (lines2, chunk) \<Rightarrow>
                    wrap_tokens_gen ctx maxWidth toks
                      (lines2, if truthy chunk then chunk else current1))))"

definition wrapTextSmart_gen ::
  "(jsstring \<Rightarrow> real) \<Rightarrow> jsstring \<Rightarrow> real \<Rightarrow> jsstring list" where
  "wrapTextSmart_gen ctx text maxWidth =
     (let tokens = filter truthy (splitWs [] text) in
      fst (push_gen (wrap_tokens_gen ctx maxWidth tokens ([], []))))"

subsection \<open>Vocabulary for the layout properties\<close>

text \<open>Joining lines with single spaces, and cutting a text into its white-space separated words.\<close>

fun joinSp :: "jsstring list \<Rightarrow> jsstring" where
  "joinSp [] = []"
| "joinSp [l] = l"
| "joinSp (l # ls) = l @ [32] @ joinSp ls"

definition tokens :: "jsstring \<Rightarrow> jsstring list" where
  "tokens text = filter truthy (splitWs [] text)"

definition wsfree :: "jsstring \<Rightarrow> bool" where
  "wsfree s \<longleftrightarrow> (\<forall>c \<in> set s. \<not> isWhiteSpace c)"

text \<open>
  How one word of the input shows up in the output: as the pieces \<open>g\<close>, which put together
  give the word back, and which are the word itself when the word is not wider than the line.
\<close>

definition placed :: "(jsstring \<Rightarrow> real) \<Rightarrow> real \<Rightarrow> jsstring list \<Rightarrow> jsstring \<Rightarrow> bool" where
  "placed ctx maxWidth g tok \<longleftrightarrow> concat g = tok \<and> (ctx tok \<le> maxWidth \<longrightarrow> g = [tok])"

text \<open>A line fits when it is not wider than the limit, or is one character long.\<close>

definition fits :: "(jsstring \<Rightarrow> real) \<Rightarrow> real \<Rightarrow> jsstring \<Rightarrow> bool" where
  "fits ctx maxWidth l \<longleftrightarrow> ctx l \<le> maxWidth \<or> length l = 1"

text \<open>The words held by a loop state of \<open>wrapTextSmart\<close>.\<close>

definition content :: "jsstring list \<times> jsstring \<Rightarrow> jsstring list" where
  "content st = concat (map tokens (fst st)) @ tokens (snd st)"

text \<open>A measuring context for examples: every character is \<open>k\<close> pixels wide.\<close>

definition fixedPitch :: "real \<Rightarrow> jsstring \<Rightarrow> real" where
  "fixedPitch k s = k * real (length s)"

subsection \<open>Vertical placement: \<open>computeSafeStartY\<close> (generator, lines 2057 to 2068)\<close>

definition computeSafeStartY :: "real \<Rightarrow> real \<Rightarrow> real \<Rightarrow> real \<Rightarrow> real" where
  "computeSafeStartY contentY blockH safeTop safeBottom =
     (let y0 = contentY - blockH / 2;
          y1 = (if y0 < safeTop then safeTop else y0);
          y2 = (if y1 + blockH > safeBottom then safeBottom - blockH else y1);
          y3 = (if y2 < safeTop then safeTop else y2)
      in y3)"

subsection \<open>Seeded random numbers (identical in the three pages)\<close>

definition seededRandom :: "real \<Rightarrow> real" where
  "seededRandom seed = (let x = sin seed * 10000 in x - of_int \<lfloor>x\<rfloor>)"

subsection \<open>Number formatting\<close>

function showNat :: "nat \<Rightarrow> jsstring" where
  "showNat n = (if n < 10 then [48 + n] else showNat (n div 10) @ [48 + n mod 10])"
  by pat_completeness auto
termination
  by (relation "measure (\<lambda>n. n)") auto

declare showNat.simps [simp del]

definition showInt :: "int \<Rightarrow> jsstring" where
  "showInt i = (if i < 0 then 45 # showNat (nat (- i)) else showNat (nat i))"

subsection \<open>Colours: \<open>hexToRgb\<close>, \<open>relLuma\<close>, \<open>mixRgb\<close>\<close>

type_synonym rgb = "real \<times> real \<times> real"

text \<open>\<open>hex.replace("#", "")\<close> removes the first occurrence.\<close>

definition replaceFirst :: "nat \<Rightarrow> jsstring \<Rightarrow> jsstring" where
  "replaceFirst c s = takeWhile (\<lambda>x. x \<noteq> c) s @ drop 1 (dropWhile (\<lambda>x. x \<noteq> c) s)"

definition hexValue :: "nat \<Rightarrow> nat option" where
  "hexValue c =
     (if 48 \<le> c \<and> c \<le> 57 then Some (c - 48)
      else if 97 \<le> c \<and> c \<le> 102 then Some (c - 87)
      else if 65 \<le> c \<and> c \<le> 70 then Some (c - 55)
      else None)"

text \<open>\<open>parseInt(s, 16)\<close>; \<open>None\<close> is \<open>NaN\<close>.\<close>

definition parseInt16 :: "jsstring \<Rightarrow> int option" where
  "parseInt16 s =
     (let t0 = dropWhile isWhiteSpace s;
          sign = (if take 1 t0 = [45] then - 1 else 1);
          t1 = (if take 1 t0 = [45] \<or> take 1 t0 = [43] then drop 1 t0 else t0);
          t2 = (if take 2 t1 = [48, 120] \<or> take 2 t1 = [48, 88] then drop 2 t1 else t1);
          ds = takeWhile (\<lambda>c. hexValue c \<noteq> None) t2
      in if ds = [] then None
         else Some (sign * int (foldl (\<lambda>a c. 16 * a + the (hexValue c)) 0 ds)))"

definition hexToRgb :: "jsstring \<Rightarrow> rgb" where
  "hexToRgb hex =
     (let h = trim (replaceFirst 35 hex);
          full = (if length h = 3 then concat (map (\<lambda>c. [c, c]) h) else h)
      in case parseInt16 full of
           None \<Rightarrow> (0, 0, 0)
         | Some n \<Rightarrow> (of_int ((n div 65536) mod 256), of_int ((n div 256) mod 256),
                      of_int (n mod 256)))"

definition srgb :: "real \<Rightarrow> real" where
  "srgb v0 = (let v = v0 / 255 in
     if v \<le> 0.03928 then v / 12.92 else ((v + 0.055) / 1.055) powr 2.4)"

definition relLuma :: "rgb \<Rightarrow> real" where
  "relLuma c = (case c of (r, g, b) \<Rightarrow> 0.2126 * srgb r + 0.7152 * srgb g + 0.0722 * srgb b)"

definition mathRound :: "real \<Rightarrow> int" where
  "mathRound x = \<lfloor>x + 1 / 2\<rfloor>"

definition mixRgb :: "rgb \<Rightarrow> rgb \<Rightarrow> real \<Rightarrow> int \<times> int \<times> int" where
  "mixRgb a b t = (case a of (ar, ag, ab) \<Rightarrow> case b of (br, bg, bb) \<Rightarrow>
     (mathRound (ar + (br - ar) * t), mathRound (ag + (bg - ag) * t),
      mathRound (ab + (bb - ab) * t)))"

subsection \<open>The canvas\<close>

text \<open>
  A \<open>call\<close> is one thing the code tells the context: a method call, or the assignment of a
  property (\<open>FillStyle\<close> is \<open>ctx.fillStyle = ...\<close>, \<open>GlobalAlphaTimes k\<close> is
  \<open>ctx.globalAlpha *= k\<close>). \<open>SetSize w h\<close> is the pair of assignments
  \<open>canvas.width = w; canvas.height = h\<close>. A fill style is a colour string or the gradient
  built by \<open>createLinearGradient\<close> and \<open>addColorStop\<close>.

  The record \<open>canvas\<close> holds what the browser answers: whether \<open>getContext("2d")\<close> gives a
  context, the width \<open>measureText\<close> reports under a font, and the pixels \<open>getImageData\<close>
  reads back from a rectangle after a list of calls. Calls into the canvas are taken to
  succeed. A pixel is its four bytes, red, green, blue and alpha.
\<close>

datatype fillStyle = Color jsstring | LinearGradient real real real real "(real \<times> jsstring) list"

datatype textAlign = AlignCenter | AlignLeft

text \<open>A font string: an optional weight, the size in pixels and the family.\<close>

datatype font = Font jsstring real jsstring

datatype call =
    SetSize real real
  | Save | Restore | BeginPath | ClosePath | Clip | Fill | Stroke
  | MoveTo real real | LineTo real real
  | ArcTo real real real real real
  | Arc real real real real real
  | BezierCurveTo real real real real real real
  | FillRect real real real real | StrokeRect real real real real
  | FillText jsstring real real
  | Translate real real | Rotate real
  | FillStyle fillStyle | StrokeStyle fillStyle
  | GlobalAlpha real | GlobalAlphaTimes real
  | LineWidth real | LineJoin jsstring | LineCap jsstring
  | TextAlign textAlign | TextBaseline jsstring | SetFont font
  | PutImageData "(nat \<times> nat \<times> nat \<times> nat) list" real real

type_synonym pixel = "nat \<times> nat \<times> nat \<times> nat"

record canvas =
  context2d :: bool
  measureText :: "font \<Rightarrow> jsstring \<Rightarrow> real"
  getImageData :: "call list \<Rightarrow> real \<Rightarrow> real \<Rightarrow> real \<Rightarrow> real \<Rightarrow> pixel list"

definition roundedRectPath :: "real \<Rightarrow> real \<Rightarrow> real \<Rightarrow> real \<Rightarrow> real \<Rightarrow> call list" where
  "roundedRectPath x y w h r =
     (let radius = max 0 (min r (min w h / 2)) in
      [BeginPath, MoveTo (x + radius) y,
       ArcTo (x + w) y (x + w) (y + h) radius,
       ArcTo (x + w) (y + h) x (y + h) radius,
       ArcTo x (y + h) x y radius,
       ArcTo x y (x + w) y radius,
       ClosePath])"

text \<open>Storing a number between 0 and 255 into a clamped byte array rounds half to even.\<close>

definition toUint8Clamped :: "real \<Rightarrow> nat" where
  "toUint8Clamped x =
     (let f = \<lfloor>x\<rfloor> in
      nat (if x - of_int f < 1 / 2 then f
           else if x - of_int f > 1 / 2 then f + 1
           else if even f then f else f + 1))"

definition grainPixel :: "real \<Rightarrow> real \<Rightarrow> nat \<times> pixel \<Rightarrow> pixel" where
  "grainPixel amount seed kp = (case kp of (k, (pr, pg, pb, pa)) \<Rightarrow>
     (let i = 4 * real k;
          n = (seededRandom (seed + i) - 0.5) * 255 * amount
      in (toUint8Clamped (max 0 (min 255 (real pr + n))),
          toUint8Clamped (max 0 (min 255 (real pg + n))),
          toUint8Clamped (max 0 (min 255 (real pb + n))),
          pa)))"

definition addGrain :: "canvas \<Rightarrow> call list \<Rightarrow> real \<Rightarrow> real \<Rightarrow> real \<Rightarrow> real \<Rightarrow> call list" where
  "addGrain cv drawn width height amount seed =
     (let img = getImageData cv drawn 0 0 width height;
          data = map (grainPixel amount seed) (zip [0..<length img] img)
      in [PutImageData data 0 0])"

function sample_loop :: "pixel list \<Rightarrow> nat \<Rightarrow> real \<times> real \<times> real \<times> real \<Rightarrow> real \<times> real \<times> real \<times> real" where
  "sample_loop img i acc =
     (if i < length img then
        (case acc of (r, g, b, c) \<Rightarrow> case img ! i of (pr, pg, pb, pa) \<Rightarrow>
           sample_loop img (i + 16) (r + real pr, g + real pg, b + real pb, c + 1))
      else acc)"
  by pat_completeness auto
termination
  by (relation "measure (\<lambda>(img, i, acc). length img - i)") auto

declare sample_loop.simps [simp del]

text \<open>The average is \<open>None\<close> where JavaScript divides by a zero count and gets \<open>NaN\<close>.\<close>

definition sampleAverageRgb :: "canvas \<Rightarrow> call list \<Rightarrow> real \<Rightarrow> real \<Rightarrow> real \<Rightarrow> real \<Rightarrow> rgb option" where
  "sampleAverageRgb cv drawn x y w h =
     (let img = getImageData cv drawn
                  (max 0 (of_int \<lfloor>x\<rfloor>)) (max 0 (of_int \<lfloor>y\<rfloor>))
                  (max 1 (of_int \<lfloor>w\<rfloor>)) (max 1 (of_int \<lfloor>h\<rfloor>))
      in case sample_loop img 0 (0, 0, 0, 0) of (r, g, b, c) \<Rightarrow>
           if c = 0 then None else Some (r / c, g / c, b / c))"

text \<open>
  Record fields carry a prefix, so that the local names of the source (\<open>palette\<close>, \<open>seed\<close>,
  \<open>quote\<close>, ...) stay free for variables. \<open>Palette\<close> is \<open>{ bg, text, accent }\<close>.
\<close>

record Palette =
  p_bg :: jsstring
  p_text :: jsstring
  p_accent :: jsstring

text \<open>The fields of \<open>chooseTextColors\<close>' result, in the order \<open>quoteColor\<close>, \<open>authorColor\<close>.\<close>

definition chooseTextColors :: "canvas \<Rightarrow> call list \<Rightarrow> real \<Rightarrow> real \<Rightarrow> Palette \<Rightarrow> jsstring \<times> jsstring" where
  "chooseTextColors cv drawn width height palette =
     (let sx = width * 0.22;
          sy = height * 0.3;
          sw = width * 0.56;
          sh = height * 0.4;
          avg = sampleAverageRgb cv drawn sx sy sw sh;
          isLightBg = (case avg of None \<Rightarrow> False | Some a \<Rightarrow> relLuma a > 0.55);
          quoteColor = (if isLightBg then str ''#111827'' else str ''#FFFFFF'')
      in if \<not> isLightBg then (quoteColor, str ''rgba(255,255,255,0.85)'')
         else
           (let acc = hexToRgb (p_accent palette);
                quoteRgb = hexToRgb quoteColor;
                accL = relLuma acc;
                quoteL = relLuma quoteRgb;
                contrast = (max accL quoteL + 0.05) / (min accL quoteL + 0.05)
            in if contrast < 2.2 then
                 (case mixRgb acc quoteRgb 0.55 of (mr, mg, mb) \<Rightarrow>
                    (quoteColor,
                     str ''rgb('' @ showInt mr @ str '', '' @ showInt mg @ str '', '' @ showInt mb @ str '')''))
               else (quoteColor, p_accent palette)))"

subsection \<open>Doodles: \<open>drawDoodles\<close> (identical in the three pages)\<close>

definition drawTinyHeart :: "real \<Rightarrow> real \<Rightarrow> real \<Rightarrow> real \<Rightarrow> call list" where
  "drawTinyHeart x y sz s =
     (let r = sz * 0.45 in
      [Save, Translate x y, Rotate ((seededRandom s - 0.5) * 0.8),
       BeginPath, MoveTo 0 r,
       BezierCurveTo (- sz) (- r) (- sz) (- sz) 0 (- sz * 0.25),
       BezierCurveTo sz (- sz) sz (- r) 0 r,
       ClosePath,
       GlobalAlphaTimes 0.9, Fill, GlobalAlphaTimes 1.05,
       LineWidth (max 1.2 (sz * 0.12)), Stroke, Restore])"

definition starVertex :: "real \<Rightarrow> real \<Rightarrow> nat \<Rightarrow> call" where
  "starVertex sz s i =
     (let spikes = 5;
          outer = sz;
          inner = sz * 0.45;
          rad = (if i mod 2 = 0 then outer else inner);
          wob = 1 + (seededRandom (s + real i * 7) - 0.5) * 0.18;
          angle = (pi * real i) / spikes - pi / 2;
          px = cos angle * rad * wob;
          py = sin angle * rad * wob
      in if i = 0 then MoveTo px py else LineTo px py)"

definition drawTinyStar :: "real \<Rightarrow> real \<Rightarrow> real \<Rightarrow> real \<Rightarrow> call list" where
  "drawTinyStar x y sz s =
     [Save, Translate x y, Rotate (seededRandom s * pi * 2), BeginPath]
     @ map (starVertex sz s) [0..<5 * 2]
     @ [ClosePath,
        GlobalAlphaTimes 0.85, Fill, GlobalAlphaTimes 1.1,
        LineWidth (max 1.2 (sz * 0.12)), Stroke, Restore]"

definition hypot :: "real \<Rightarrow> real \<Rightarrow> real" where
  "hypot a b = sqrt (a * a + b * b)"

definition doodle :: "real \<Rightarrow> real \<Rightarrow> real \<Rightarrow> nat \<Rightarrow> call list" where
  "doodle width height seed i =
     (let x = seededRandom (seed + real i * 11) * width;
          y = seededRandom (seed + real i * 11 + 1) * height;
          sz = 7 + seededRandom (seed + real i * 11 + 2) * 12;
          cx = width / 2;
          cy = height / 2
      in if hypot (x - cx) (y - cy) < min width height * 0.26 then []
         else
           (let kind = \<lfloor>seededRandom (seed + real i * 19) * 2\<rfloor> in
            if kind = 0 then drawTinyHeart x y sz (seed + real i * 101)
            else drawTinyStar x y (sz * 0.9) (seed + real i * 101)))"

definition drawDoodles :: "real \<Rightarrow> real \<Rightarrow> jsstring \<Rightarrow> real \<Rightarrow> call list" where
  "drawDoodles width height color seed =
     [Save, GlobalAlpha 0.12, StrokeStyle (Color color), FillStyle (Color color),
      LineJoin (str ''round''), LineCap (str ''round'')]
     @ concat (map (doodle width height seed) [0..<10])
     @ [Restore]"

subsection \<open>Backgrounds (the block is identical in the renderers)\<close>

definition paperSpeckle :: "real \<Rightarrow> real \<Rightarrow> real \<Rightarrow> nat \<Rightarrow> call" where
  "paperSpeckle width height seed i =
     (let x = seededRandom (seed + real i) * width;
          y = seededRandom (seed + real i + 100) * height
      in FillRect x y 2 2)"

function stripes_loop :: "real \<Rightarrow> real \<Rightarrow> real \<Rightarrow> call list" where
  "stripes_loop width height i =
     (if i < width + height then
        [BeginPath, MoveTo i 0, LineTo (i + height) height, Stroke]
        @ stripes_loop width height (i + 60)
      else [])"
  by pat_completeness auto
termination
proof (relation "measure (\<lambda>(width, height, i). nat \<lceil>(width + height - i) / 60\<rceil>)")
  show "wf (measure (\<lambda>(width, height, i). nat \<lceil>(width + height - i) / 60\<rceil>))" by simp
next
  fix width height i :: real
  assume "i < width + height"
  then have "0 < (width + height - i) / 60" by simp
  then have "0 < \<lceil>(width + height - i) / 60\<rceil>" by (simp add: ceiling_less_iff)
  moreover have "\<lceil>(width + height - (i + 60)) / 60\<rceil> = \<lceil>(width + height - i) / 60\<rceil> - 1"
  proof -
    have e: "(width + height - (i + 60)) / 60 = (width + height - i) / 60 - 1" by (simp add: field_simps)
    show ?thesis unfolding e by (rule ceiling_diff_one)
  qed
  ultimately show "((width, height, i + 60), (width, height, i))
      \<in> measure (\<lambda>(width, height, i). nat \<lceil>(width + height - i) / 60\<rceil>)"
    by simp
qed

declare stripes_loop.simps [simp del]

function halftone_row :: "real \<Rightarrow> real \<Rightarrow> real \<Rightarrow> real \<Rightarrow> call list" where
  "halftone_row seed width y x =
     (if x < width then
        (let r = 2 + seededRandom (seed + x * 7 + y * 11) * 3 in
         [BeginPath, Arc x y r 0 (pi * 2), Fill])
        @ halftone_row seed width y (x + 26)
      else [])"
  by pat_completeness auto
termination
proof (relation "measure (\<lambda>(seed, width, y, x). nat \<lceil>(width - x) / 26\<rceil>)")
  show "wf (measure (\<lambda>(seed, width, y, x). nat \<lceil>(width - x) / 26\<rceil>))" by simp
next
  fix seed width y x :: real
  assume "x < width"
  then have "0 < (width - x) / 26" by simp
  then have "0 < \<lceil>(width - x) / 26\<rceil>" by (simp add: ceiling_less_iff)
  moreover have "\<lceil>(width - (x + 26)) / 26\<rceil> = \<lceil>(width - x) / 26\<rceil> - 1"
  proof -
    have e: "(width - (x + 26)) / 26 = (width - x) / 26 - 1" by (simp add: field_simps)
    show ?thesis unfolding e by (rule ceiling_diff_one)
  qed
  ultimately show "((seed, width, y, x + 26), (seed, width, y, x))
      \<in> measure (\<lambda>(seed, width, y, x). nat \<lceil>(width - x) / 26\<rceil>)"
    by simp
qed

declare halftone_row.simps [simp del]

function halftone_rows :: "real \<Rightarrow> real \<Rightarrow> real \<Rightarrow> real \<Rightarrow> call list" where
  "halftone_rows seed width height y =
     (if y < height then
        halftone_row seed width y 0 @ halftone_rows seed width height (y + 26)
      else [])"
  by pat_completeness auto
termination
proof (relation "measure (\<lambda>(seed, width, height, y). nat \<lceil>(height - y) / 26\<rceil>)")
  show "wf (measure (\<lambda>(seed, width, height, y). nat \<lceil>(height - y) / 26\<rceil>))" by simp
next
  fix seed width height y :: real
  assume "y < height"
  then have "0 < (height - y) / 26" by simp
  then have "0 < \<lceil>(height - y) / 26\<rceil>" by (simp add: ceiling_less_iff)
  moreover have "\<lceil>(height - (y + 26)) / 26\<rceil> = \<lceil>(height - y) / 26\<rceil> - 1"
  proof -
    have e: "(height - (y + 26)) / 26 = (height - y) / 26 - 1" by (simp add: field_simps)
    show ?thesis unfolding e by (rule ceiling_diff_one)
  qed
  ultimately show "((seed, width, height, y + 26), (seed, width, height, y))
      \<in> measure (\<lambda>(seed, width, height, y). nat \<lceil>(height - y) / 26\<rceil>)"
    by simp
qed

declare halftone_rows.simps [simp del]

definition blob :: "real \<Rightarrow> real \<Rightarrow> real \<Rightarrow> nat \<Rightarrow> call list" where
  "blob width height seed i =
     (let x = seededRandom (seed + real i * 10) * width;
          y = seededRandom (seed + real i * 10 + 1) * height;
          r = 120 + seededRandom (seed + real i * 10 + 2) * 260
      in [BeginPath, Arc x y r 0 (pi * 2), Fill])"

text \<open>
  \<open>drawn\<close> is the list of calls made on the context before the block: the grain of the
  \<open>noise\<close> background reads the pixels back.
\<close>

definition drawBackground ::
  "canvas \<Rightarrow> call list \<Rightarrow> real \<Rightarrow> real \<Rightarrow> Palette \<Rightarrow> jsstring \<times> jsstring \<Rightarrow> real \<Rightarrow> jsstring \<Rightarrow> call list" where
  "drawBackground cv drawn width height palette gradient seed bgType =
     (if bgType = str ''gradient'' \<or> bgType = str ''glass'' then
        (let grd = LinearGradient 0 0 width height [(0, fst gradient), (1, snd gradient)] in
         [FillStyle grd, FillRect 0 0 width height]
         @ (if bgType = str ''glass''
            then [FillStyle (Color (str ''rgba(255,255,255,0.16)'')), FillRect 0 0 width height]
            else []))
      else if bgType = str ''dark'' then
        [FillStyle (Color (p_bg palette)), FillRect 0 0 width height,
         FillStyle (Color (str ''rgba(255,255,255,0.04)'')), FillRect 0 0 width height]
      else if bgType = str ''paper'' then
        [FillStyle (Color (str ''#ffffff'')), FillRect 0 0 width height,
         GlobalAlpha 0.06, FillStyle (Color (p_accent palette))]
        @ map (paperSpeckle width height seed) [0..<90]
        @ [GlobalAlpha 1]
      else if bgType = str ''noise'' then
        (let fill = [FillStyle (Color (p_bg palette)), FillRect 0 0 width height] in
         fill @ addGrain cv (drawn @ fill) width height 0.08 seed)
      else if bgType = str ''stripes'' then
        [FillStyle (Color (p_bg palette)), FillRect 0 0 width height,
         StrokeStyle (Color (str ''rgba(0,0,0,0.05)'')), LineWidth 14]
        @ stripes_loop width height (- height)
      else if bgType = str ''halftone'' then
        [FillStyle (Color (p_bg palette)), FillRect 0 0 width height,
         FillStyle (Color (str ''rgba(0,0,0,0.05)''))]
        @ halftone_rows seed width height 0
      else if bgType = str ''blobs'' then
        [FillStyle (Color (p_bg palette)), FillRect 0 0 width height,
         GlobalAlpha 0.22, FillStyle (Color (p_accent palette))]
        @ concat (map (blob width height seed) [0..<3])
        @ [GlobalAlpha 1]
      else
        [FillStyle (Color (p_bg palette)), FillRect 0 0 width height])"

subsection \<open>Generator: catalogs and state\<close>

record FontPack =
  f_quote :: jsstring
  f_author :: jsstring


record CardState =
  cs_w :: "real option"
  cs_h :: "real option"
  cs_previewW :: "real option"



definition mkPalette :: "string \<Rightarrow> string \<Rightarrow> string \<Rightarrow> Palette" where
  "mkPalette b t a = \<lparr>p_bg = str b, p_text = str t, p_accent = str a\<rparr>"



definition mkFont :: "string \<Rightarrow> FontPack" where
  "mkFont f = \<lparr>f_quote = str f, f_author = str f\<rparr>"










subsection \<open>Generator: \<open>pick\<close>, \<open>generateDesign\<close>, \<open>makeDesigns\<close>\<close>













subsection \<open>Drawing the text lines\<close>

text \<open>\<open>for (const line of textLines) { ctx.fillText(line, x, y); y += qLine; }\<close>,
  returning the calls and the final \<open>y\<close>.\<close>

fun fillLines :: "jsstring list \<Rightarrow> real \<Rightarrow> real \<Rightarrow> real \<Rightarrow> call list \<times> real" where
  "fillLines [] x y qLine = ([], y)"
| "fillLines (line # rest) x y qLine =
     (case fillLines rest x (y + qLine) qLine of (cs, y1) \<Rightarrow> (FillText line x y # cs, y1))"

subsection \<open>Generator: \<open>renderCard\<close> (lines 2211 to 2472)\<close>



text \<open>The block under \<open>// clip\<close>, with the two assignments that size the canvas before it.\<close>

definition clipBlock :: "real \<Rightarrow> real \<Rightarrow> real \<Rightarrow> call list" where
  "clipBlock width height radius =
     [SetSize width height, Save] @ roundedRectPath 0 0 width height radius @ [Clip]"


text \<open>
  The block under \<open>// --- Text render ---\<close>, from \<open>chooseTextColors\<close> to the final
  \<open>ctx.restore()\<close>. \<open>drawn\<close> is the list of calls made before it.
\<close>

definition textRender_gen ::
  "canvas \<Rightarrow> call list \<Rightarrow> jsstring \<Rightarrow> jsstring \<Rightarrow> Palette \<Rightarrow> FontPack \<Rightarrow>
   real \<Rightarrow> real \<Rightarrow> real \<Rightarrow> real \<Rightarrow> real \<Rightarrow> real \<Rightarrow> real \<Rightarrow>
   real \<Rightarrow> real \<Rightarrow> textAlign \<Rightarrow> real \<Rightarrow> call list" where
  "textRender_gen cv drawn quote author palette font width height padding qSize qLine aSize aGap
       contentY contentX align innerMax =
     (case chooseTextColors cv drawn width height palette of
        (quoteColor, authorColor) \<Rightarrow>
          (let ctxFont = Font [] qSize (f_quote font);
               setup = [TextAlign align, TextBaseline (str ''top''), SetFont ctxFont,
                        FillStyle (Color quoteColor)];
               safeTop = padding * 0.9;
               safeBottom = height - padding * 0.9;
               textLines = wrapTextSmart_gen (measureText cv ctxFont) quote innerMax;
               quoteH = real (length textLines) * qLine;
               aBlock = (if truthy (trim author) then aSize * 1.6 else 0);
               totalH = quoteH + aGap + aBlock;
               y = computeSafeStartY contentY totalH safeTop safeBottom;
               x = (if align = AlignLeft then contentX else width / 2)
           in case fillLines textLines x y qLine of
                (quoteCalls, y1) \<Rightarrow>
                  setup @ quoteCalls
                  @ (if truthy (trim author) then
                       [SetFont (Font (str ''800'') aSize (f_author font)),
                        FillStyle (Color authorColor),
                        FillText author x (y1 + aGap)]
                     else [])
                  @ [Restore]))"


subsection \<open>Paginated wall: \<open>renderCard\<close> (lines 319 to 503)\<close>

record CardData =
  c_id :: jsstring
  c_quote :: jsstring
  c_author :: jsstring
  c_width :: real
  c_height :: real
  c_palette :: Palette
  c_gradient :: "jsstring \<times> jsstring"
  c_font :: FontPack
  c_bgType :: jsstring
  c_layout :: jsstring
  c_seed :: real
  c_format :: jsstring
  c_radius :: real
  c_quoteSizeMultiplier :: real
  c_authorSizeMultiplier :: real
  c_createdAt :: jsstring

definition layoutPositions_wall ::
  "real \<Rightarrow> real \<Rightarrow> real \<Rightarrow> Palette \<Rightarrow> jsstring \<Rightarrow>
   call list \<times> real \<times> real \<times> textAlign \<times> real" where
  "layoutPositions_wall width height innerPadding palette layout =
     (let contentY = height * 0.52;
          contentX = width * 0.5;
          align = AlignCenter;
          innerMax = width - innerPadding * 2
      in
      if layout = str ''left'' then
        ([], height * 0.46, innerPadding, AlignLeft, innerMax)
      else if layout = str ''icon-top'' then
        ([GlobalAlpha 0.25, FillStyle (Color (p_accent palette)), BeginPath,
          Arc (width * 0.5) (height * 0.22) 54 0 (pi * 2), Fill, GlobalAlpha 1],
         height * 0.56, contentX, align, innerMax)
      else if layout = str ''split'' then
        (if height \<ge> width then
           ([GlobalAlpha 0.18, FillStyle (Color (p_accent palette)),
             FillRect 0 0 width (height * 0.32), GlobalAlpha 1],
            height * 0.58, contentX, align, innerMax)
         else
           ([GlobalAlpha 0.18, FillStyle (Color (p_accent palette)),
             FillRect 0 0 (width * 0.32) height, GlobalAlpha 1],
            contentY, width * 0.38, AlignLeft, width * 0.55))
      else ([], contentY, contentX, align, innerMax))"

text \<open>
  The text part of the wall's \<open>renderCard\<close>, from \<open>chooseTextColors\<close> to the final
  \<open>ctx.restore()\<close>; the start of the block is clamped in line.
\<close>

definition textRender_wall ::
  "canvas \<Rightarrow> call list \<Rightarrow> jsstring \<Rightarrow> jsstring \<Rightarrow> Palette \<Rightarrow> FontPack \<Rightarrow>
   real \<Rightarrow> real \<Rightarrow> real \<Rightarrow> real \<Rightarrow> real \<Rightarrow> real \<Rightarrow>
   real \<Rightarrow> real \<Rightarrow> textAlign \<Rightarrow> real \<Rightarrow> call list" where
  "textRender_wall cv drawn quote author palette font width height innerPadding qSize qLine aSize
       contentY contentX align innerMax =
     (case chooseTextColors cv drawn width height palette of
        (quoteColor, authorColor) \<Rightarrow>
          (let ctxFont = Font [] qSize (f_quote font);
               setup = [TextAlign align, TextBaseline (str ''top''), SetFont ctxFont,
                        FillStyle (Color quoteColor)];
               safeTop = innerPadding * 0.9;
               safeBottom = height - innerPadding * 0.9;
               textLines = wrapTextSmart (measureText cv ctxFont) quote innerMax;
               quoteH = real (length textLines) * qLine;
               aGap = (if truthy (trim author) then aSize * 0.6 else 0);
               aBlock = (if truthy (trim author) then aSize * 1.6 else 0);
               totalH = quoteH + aGap + aBlock;
               y0 = contentY - totalH / 2;
               y1 = (if y0 < safeTop then safeTop else y0);
               y2 = (if y1 + totalH > safeBottom then safeBottom - totalH else y1);
               y3 = (if y2 < safeTop then safeTop else y2);
               x = (if align = AlignLeft then contentX else width / 2)
           in case fillLines textLines x y3 qLine of
                (quoteCalls, y4) \<Rightarrow>
                  setup @ quoteCalls
                  @ (if truthy (trim author) then
                       [SetFont (Font (str ''800'') aSize (f_author font)),
                        FillStyle (Color authorColor),
                        FillText author x (y4 + aGap)]
                     else [])
                  @ [Restore]))"

text \<open>
  Without a 2D context the function returns at once and nothing is drawn.
  \<open>Number(x) || d\<close> is \<open>d\<close> when \<open>x\<close> is zero.
\<close>

definition renderCard_wall :: "canvas \<Rightarrow> CardData \<Rightarrow> call list" where
  "renderCard_wall cv crd =
     (if \<not> context2d cv then []
      else
        (let width = max 1 (if c_width crd = 0 then 1 else c_width crd);
             height = max 1 (if c_height crd = 0 then 1 else c_height crd);
             palette = c_palette crd;
             gradient = c_gradient crd;
             font = c_font crd;
             bgType = c_bgType crd;
             layout = c_layout crd;
             seed = c_seed crd;
             quoteMul = (if c_quoteSizeMultiplier crd = 0 then 100
                         else c_quoteSizeMultiplier crd) / 100;
             authorMul = (if c_authorSizeMultiplier crd = 0 then 100
                          else c_authorSizeMultiplier crd) / 100;
             padding = width * 0.1;
             qSize = of_int \<lfloor>width * 0.05 * quoteMul\<rfloor>;
             qLine = qSize * 1.38;
             aSize = (if truthy (trim (c_author crd))
                      then of_int \<lfloor>width * 0.034 * authorMul\<rfloor> else 0);
             radius = c_radius crd;
             clip = clipBlock width height radius;
             isDark = (bgType = str ''dark'');
             background = drawBackground cv clip width height palette gradient seed bgType;
             doodleColor = (if isDark then str ''rgba(255,255,255,1)'' else p_accent palette);
             doodles = drawDoodles width height doodleColor (seed + 999);
             innerPadding = padding
         in case layoutPositions_wall width height innerPadding palette layout of
              (accents, contentY, contentX, align, innerMax) \<Rightarrow>
                (let drawn = clip @ background @ doodles @ accents in
                 drawn @ textRender_wall cv drawn (c_quote crd) (c_author crd) palette font
                           width height innerPadding qSize qLine aSize
                           contentY contentX align innerMax)))"

subsection \<open>Vocabulary for the rendering properties, and example inputs\<close>

text \<open>A canvas for examples: every pixel reads back as \<open>p\<close>, and a character is \<open>k\<close> times
  the font size wide.\<close>

definition fontPx :: "font \<Rightarrow> real" where
  "fontPx f = (case f of Font weight px family \<Rightarrow> px)"

definition flatCanvas :: "pixel \<Rightarrow> real \<Rightarrow> canvas" where
  "flatCanvas p k =
     \<lparr>context2d = True,
      measureText = (\<lambda>f s. k * fontPx f * real (length s)),
      getImageData = (\<lambda>drawn x y w h. replicate (nat \<lfloor>w\<rfloor> * nat \<lfloor>h\<rfloor>) p)\<rparr>"








text \<open>Text drawing calls, and call lists without any.\<close>

definition isFillText :: "call \<Rightarrow> bool" where
  "isFillText c = (case c of FillText s x y \<Rightarrow> True | _ \<Rightarrow> False)"

definition noText :: "call list \<Rightarrow> bool" where
  "noText cs \<longleftrightarrow> (\<forall>c \<in> set cs. \<not> isFillText c)"

text \<open>The size and the doodle colour the wall's \<open>renderCard\<close> works with.\<close>

definition wallWidth :: "CardData \<Rightarrow> real" where
  "wallWidth crd = max 1 (if c_width crd = 0 then 1 else c_width crd)"

definition wallHeight :: "CardData \<Rightarrow> real" where
  "wallHeight crd = max 1 (if c_height crd = 0 then 1 else c_height crd)"

definition wallDoodleColor :: "CardData \<Rightarrow> jsstring" where
  "wallDoodleColor crd =
     (if c_bgType crd = str ''dark'' then str ''rgba(255,255,255,1)'' else p_accent (c_palette crd))"

definition exampleCard :: "string \<Rightarrow> string \<Rightarrow> CardData" where
  "exampleCard quote author =
     \<lparr>c_id = str ''-Nabc'', c_quote = str quote, c_author = str author,
      c_width = 1080, c_height = 1080,
      c_palette = mkPalette ''#FFF5F5'' ''#2D3748'' ''#E53E3E'',
      c_gradient = (str ''#667eea'', str ''#764ba2''),
      c_font = mkFont ''Georgia, serif'',
      c_bgType = str ''paper'', c_layout = str ''centered'', c_seed = 42,
      c_format = str ''square'', c_radius = 18,
      c_quoteSizeMultiplier = 100, c_authorSizeMultiplier = 100,
      c_createdAt = str ''2026-01-01T00:00:00.000Z''\<rparr>"

section \<open>Properties\<close>


subsection \<open>Strings and words\<close>

lemma truthy_simps [simp]: "\<not> truthy []" "truthy (c # cs)"
  by (simp_all add: truthy_def)

lemma isWhiteSpace_32 [simp]: "isWhiteSpace 32"
  by (simp add: isWhiteSpace_def)

lemma wsfree_simps [simp]:
  "wsfree []" "wsfree (c # cs) \<longleftrightarrow> \<not> isWhiteSpace c \<and> wsfree cs"
  "wsfree (a @ b) \<longleftrightarrow> wsfree a \<and> wsfree b"
  by (auto simp: wsfree_def)

lemma splitWs_wsfree: "wsfree s \<Longrightarrow> splitWs field s = [field @ s]"
  by (induction field s rule: splitWs.induct) auto

lemma tokens_wsfree: "wsfree s \<Longrightarrow> s \<noteq> [] \<Longrightarrow> tokens s = [s]"
  by (simp add: tokens_def splitWs_wsfree truthy_def)

lemma tokens_Nil [simp]: "tokens [] = []"
  by (simp add: tokens_def)

lemma filter_splitWs_dropWhile:
  "filter truthy (splitWs [] (dropWhile isWhiteSpace cs)) = filter truthy (splitWs [] cs)"
  by (cases cs) auto

lemma blank_tokens:
  assumes "\<forall>c \<in> set s. isWhiteSpace c"
  shows "filter truthy (splitWs [] s) = []"
proof (cases s)
  case Nil
  then show ?thesis by simp
next
  case (Cons c cs)
  with assms have c: "isWhiteSpace c" and d: "dropWhile isWhiteSpace cs = []" by simp_all
  have "splitWs [] s = [] # splitWs [] (dropWhile isWhiteSpace cs)" using Cons c by simp
  then have "splitWs [] s = [] # [] # []" unfolding d by simp
  then show ?thesis by simp
qed

lemma filter_splitWs_append:
  "filter truthy (splitWs field (a @ 32 # b)) =
   filter truthy (splitWs field a) @ filter truthy (splitWs [] b)"
proof (induction field a rule: splitWs.induct)
  case (1 field)
  show ?case by (simp add: filter_splitWs_dropWhile)
next
  case (2 field c cs)
  show ?case
  proof (cases "isWhiteSpace c")
    case True
    show ?thesis
    proof (cases "\<forall>x \<in> set cs. isWhiteSpace x")
      case allws: True
      then have d: "dropWhile isWhiteSpace cs = []" by simp
      from allws have e: "dropWhile isWhiteSpace (cs @ 32 # b) = dropWhile isWhiteSpace b"
        by (simp add: dropWhile_append)
      have "splitWs field ((c # cs) @ 32 # b) =
            field # splitWs [] (dropWhile isWhiteSpace (cs @ 32 # b))"
        using True by simp
      then have l: "splitWs field ((c # cs) @ 32 # b) =
                    field # splitWs [] (dropWhile isWhiteSpace b)"
        unfolding e .
      have "splitWs field (c # cs) = field # splitWs [] (dropWhile isWhiteSpace cs)"
        using True by simp
      then have r: "splitWs field (c # cs) = [field, []]" unfolding d by simp
      show ?thesis unfolding l r by (simp add: filter_splitWs_dropWhile)
    next
      case False
      then have "dropWhile isWhiteSpace (cs @ 32 # b) = dropWhile isWhiteSpace cs @ 32 # b"
        by (auto simp: dropWhile_append)
      then show ?thesis using True 2(1) by simp
    qed
  next
    case False
    then show ?thesis using 2(2) by simp
  qed
qed

lemma tokens_append_space: "tokens (a @ 32 # b) = tokens a @ tokens b"
  by (simp add: tokens_def filter_splitWs_append)

lemma tokens_joinSp: "tokens (joinSp ls) = concat (map tokens ls)"
  by (induction ls rule: joinSp.induct) (simp_all add: tokens_append_space)

lemma splitWs_fields_wsfree:
  "wsfree field \<Longrightarrow> t \<in> set (splitWs field s) \<Longrightarrow> wsfree t"
  by (induction field s rule: splitWs.induct) (auto split: if_splits)

lemma tokens_are_words: "t \<in> set (tokens s) \<Longrightarrow> wsfree t \<and> t \<noteq> []"
  using splitWs_fields_wsfree [of "[]" t s] by (auto simp: tokens_def truthy_def)

subsection \<open>Lines fit the width\<close>

lemma wrap_chars_fits:
  "\<forall>l \<in> set lines. fits ctx w l \<Longrightarrow> chunk = [] \<or> fits ctx w chunk \<Longrightarrow>
   wrap_chars ctx w tok (lines, chunk) = (lines', chunk') \<Longrightarrow>
   (\<forall>l \<in> set lines'. fits ctx w l) \<and> (chunk' = [] \<or> fits ctx w chunk')"
proof (induction tok arbitrary: lines chunk)
  case Nil
  then show ?case by simp
next
  case (Cons ch rest)
  show ?case
  proof (cases "ctx (chunk @ [ch]) \<le> w")
    case True
    with Cons.prems have "wrap_chars ctx w rest (lines, chunk @ [ch]) = (lines', chunk')"
      by simp
    moreover have "fits ctx w (chunk @ [ch])" using True by (simp add: fits_def)
    ultimately show ?thesis using Cons.IH Cons.prems(1) by blast
  next
    case False
    let ?ls = "if truthy chunk then lines @ [chunk] else lines"
    from False Cons.prems have "wrap_chars ctx w rest (?ls, [ch]) = (lines', chunk')"
      by simp
    moreover have "\<forall>l \<in> set ?ls. fits ctx w l"
      using Cons.prems(1,2) by (auto simp: truthy_def)
    moreover have "fits ctx w [ch]" by (simp add: fits_def)
    ultimately show ?thesis using Cons.IH by blast
  qed
qed

lemma wrap_tokens_fits:
  "\<forall>l \<in> set lines. fits ctx w l \<Longrightarrow> current = [] \<or> fits ctx w current \<Longrightarrow>
   wrap_tokens ctx w toks (lines, current) = (lines', current') \<Longrightarrow>
   (\<forall>l \<in> set lines'. fits ctx w l) \<and> (current' = [] \<or> fits ctx w current')"
proof (induction toks arbitrary: lines current)
  case Nil
  then show ?case by simp
next
  case (Cons tok toks)
  let ?test = "if truthy current then current @ [32] @ tok else tok"
  show ?case
  proof (cases "ctx ?test \<le> w")
    case True
    with Cons.prems have "wrap_tokens ctx w toks (lines, ?test) = (lines', current')"
      by (simp add: Let_def)
    moreover have "fits ctx w ?test" using True by (simp add: fits_def)
    ultimately show ?thesis using Cons.IH Cons.prems(1) by blast
  next
    case False
    obtain lines1 current1 where
      st1: "(if truthy current then push (lines, current) else (lines, current)) =
            (lines1, current1)"
      by (cases "if truthy current then push (lines, current) else (lines, current)")
    have l1: "\<forall>l \<in> set lines1. fits ctx w l" and c1: "current1 = []"
      using st1 Cons.prems(1,2) by (auto simp: push_def truthy_def split: if_splits)
    show ?thesis
    proof (cases "ctx tok \<le> w")
      case True
      with False st1 Cons.prems have "wrap_tokens ctx w toks (lines1, tok) = (lines', current')"
        by (simp add: Let_def)
      moreover have "fits ctx w tok" using True by (simp add: fits_def)
      ultimately show ?thesis using Cons.IH l1 by blast
    next
      case tooLong: False
      obtain lines2 chunk where
        wc: "wrap_chars ctx w tok (lines1, []) = (lines2, chunk)"
        by (cases "wrap_chars ctx w tok (lines1, [])")
      from wrap_chars_fits [OF l1 _ wc]
      have l2: "\<forall>l \<in> set lines2. fits ctx w l" and c2: "chunk = [] \<or> fits ctx w chunk"
        by simp_all
      from False tooLong st1 wc Cons.prems
      have "wrap_tokens ctx w toks (lines2, if truthy chunk then chunk else current1) =
            (lines', current')"
        by (simp add: Let_def)
      moreover have "(if truthy chunk then chunk else current1) = [] \<or>
                     fits ctx w (if truthy chunk then chunk else current1)"
        using c1 c2 by (auto simp: truthy_def)
      ultimately show ?thesis using Cons.IH l2 by blast
    qed
  qed
qed

text \<open>
  Claim C2, as amended. Every line returned by \<open>wrapTextSmart\<close> is at most \<open>maxWidth\<close> wide
  under the measuring context, or it is a single character: a character that alone is wider
  than \<open>maxWidth\<close> cannot be split and is returned as a line of its own. This holds for every
  text, every \<open>maxWidth\<close> and every measuring context.
\<close>

theorem wrapTextSmart_lines_fit:
  "l \<in> set (wrapTextSmart ctx text maxWidth) \<Longrightarrow> ctx l \<le> maxWidth \<or> length l = 1"
proof -
  assume a: "l \<in> set (wrapTextSmart ctx text maxWidth)"
  obtain lines current where
    r: "wrap_tokens ctx maxWidth (filter truthy (splitWs [] text)) ([], []) = (lines, current)"
    by (cases "wrap_tokens ctx maxWidth (filter truthy (splitWs [] text)) ([], [])")
  from wrap_tokens_fits [OF _ _ r]
  have "\<forall>l \<in> set lines. fits ctx maxWidth l" and "current = [] \<or> fits ctx maxWidth current"
    by simp_all
  moreover have "wrapTextSmart ctx text maxWidth =
                 (if truthy current then lines @ [current] else lines)"
    using r by (simp add: wrapTextSmart_def push_def)
  ultimately have "fits ctx maxWidth l" using a by (auto simp: truthy_def split: if_splits)
  then show ?thesis by (simp add: fits_def)
qed

lemma wrap_example_abc_defg:
  "wrapTextSmart (fixedPitch 10) (str ''abc defg'') 35 = [str ''abc'', str ''def'', str ''g'']"
  by (simp add: wrapTextSmart_def str_def isWhiteSpace_def push_def fixedPitch_def)

theorem wrapTextSmart_lines_fit_witness:
  "str ''def'' \<in> set (wrapTextSmart (fixedPitch 10) (str ''abc defg'') 35) \<and>
   (fixedPitch 10 (str ''def'') \<le> 35 \<or> length (str ''def'') = 1)"
  using wrapTextSmart_lines_fit [of "str ''def''" "fixedPitch 10" "str ''abc defg''" 35]
  by (simp add: wrap_example_abc_defg)

text \<open>
  Claim C2, as stated, fails: with every character 10 pixels wide and \<open>maxWidth = 5\<close>, the
  text \<open>ab\<close> is returned as the two lines \<open>a\<close> and \<open>b\<close>, each 10 pixels wide.
\<close>

theorem wrapTextSmart_wide_char_counterexample:
  "(0::real) < 5 \<and>
   wrapTextSmart (fixedPitch 10) (str ''ab'') 5 = [str ''a'', str ''b''] \<and>
   \<not> fixedPitch 10 (str ''a'') \<le> 5"
  by (simp add: wrapTextSmart_def str_def isWhiteSpace_def push_def fixedPitch_def)

subsection \<open>No word is lost\<close>

lemma wrap_chars_pieces:
  "wsfree chunk \<Longrightarrow> wsfree tok \<Longrightarrow>
   \<exists>ps chunk'. wrap_chars ctx w tok (lines, chunk) = (lines @ ps, chunk') \<and>
      (\<forall>p \<in> set ps. wsfree p \<and> p \<noteq> []) \<and> wsfree chunk' \<and>
      concat ps @ chunk' = chunk @ tok"
proof (induction tok arbitrary: lines chunk)
  case Nil
  then show ?case by simp
next
  case (Cons ch rest)
  have rest: "wsfree rest" and ch: "wsfree [ch]" using Cons.prems(2) by simp_all
  show ?case
  proof (cases "ctx (chunk @ [ch]) \<le> w")
    case True
    have "wsfree (chunk @ [ch])" using Cons.prems ch by simp
    from Cons.IH [OF this rest, of lines] True show ?thesis by simp
  next
    case False
    let ?ls = "if truthy chunk then lines @ [chunk] else lines"
    from Cons.IH [OF ch rest, of ?ls] obtain ps chunk' where
      h: "wrap_chars ctx w rest (?ls, [ch]) = (?ls @ ps, chunk')"
         "\<forall>p \<in> set ps. wsfree p \<and> p \<noteq> []" "wsfree chunk'"
         "concat ps @ chunk' = [ch] @ rest"
      by blast
    show ?thesis
    proof (cases "truthy chunk")
      case True
      then have "wrap_chars ctx w (ch # rest) (lines, chunk) = (lines @ (chunk # ps), chunk')"
        using False h(1) by simp
      moreover have "\<forall>p \<in> set (chunk # ps). wsfree p \<and> p \<noteq> []"
        using h(2) True Cons.prems(1) by (simp add: truthy_def)
      moreover have "concat (chunk # ps) @ chunk' = chunk @ ch # rest" using h(4) by simp
      ultimately show ?thesis using h(3) by blast
    next
      case nt: False
      then have "wrap_chars ctx w (ch # rest) (lines, chunk) = (lines @ ps, chunk')"
        using False h(1) by simp
      moreover have "concat ps @ chunk' = chunk @ ch # rest"
        using h(4) nt by (simp add: truthy_def)
      ultimately show ?thesis using h(2,3) by blast
    qed
  qed
qed

lemma wrap_tokens_content:
  "\<forall>t \<in> set toks. wsfree t \<and> t \<noteq> [] \<Longrightarrow>
   \<exists>gs. content (wrap_tokens ctx w toks (lines, current)) = content (lines, current) @ concat gs
       \<and> list_all2 (placed ctx w) gs toks"
proof (induction toks arbitrary: lines current)
  case Nil
  show ?case by simp
next
  case (Cons tok toks)
  have tok: "wsfree tok" "tok \<noteq> []" and toks: "\<forall>t \<in> set toks. wsfree t \<and> t \<noteq> []"
    using Cons.prems by simp_all
  let ?test = "if truthy current then current @ [32] @ tok else tok"
  have step: "\<exists>g st. wrap_tokens ctx w (tok # toks) (lines, current) = wrap_tokens ctx w toks st
      \<and> content st = content (lines, current) @ g \<and> placed ctx w g tok"
    (is "\<exists>g st. ?Q g st")
  proof (cases "ctx ?test \<le> w")
    case True
    have "content (lines, ?test) = content (lines, current) @ [tok]"
      using tok by (simp add: content_def tokens_append_space tokens_wsfree truthy_def)
    then have "?Q [tok] (lines, ?test)" using True by (simp add: placed_def Let_def)
    then show ?thesis by blast
  next
    case False
    obtain lines1 current1 where
      st1: "(if truthy current then push (lines, current) else (lines, current)) =
            (lines1, current1)"
      by (cases "if truthy current then push (lines, current) else (lines, current)")
    have c1: "current1 = []" and l1: "concat (map tokens lines1) = content (lines, current)"
      using st1 by (auto simp: push_def truthy_def content_def split: if_splits)
    show ?thesis
    proof (cases "ctx tok \<le> w")
      case True
      have "content (lines1, tok) = content (lines, current) @ [tok]"
        using tok l1 by (simp add: content_def tokens_wsfree)
      then have "?Q [tok] (lines1, tok)" using True False st1 by (simp add: placed_def Let_def)
      then show ?thesis by blast
    next
      case tooLong: False
      from wrap_chars_pieces [of "[]" tok ctx w lines1] tok obtain ps chunk where
        wc: "wrap_chars ctx w tok (lines1, []) = (lines1 @ ps, chunk)"
            "\<forall>p \<in> set ps. wsfree p \<and> p \<noteq> []" "wsfree chunk" "concat ps @ chunk = tok"
        by auto
      let ?cur = "if truthy chunk then chunk else current1"
      let ?g = "ps @ (if chunk = [] then [] else [chunk])"
      have "concat (map tokens ps) = ps" using wc(2)
        by (induction ps) (simp_all add: tokens_wsfree)
      moreover have "tokens ?cur = (if chunk = [] then [] else [chunk])"
        using wc(3) c1 by (simp add: tokens_wsfree truthy_def)
      ultimately have "content (lines1 @ ps, ?cur) = content (lines, current) @ ?g"
        using l1 by (simp add: content_def)
      moreover have "concat ?g = tok"
        using wc(4) by auto
      ultimately have "?Q ?g (lines1 @ ps, ?cur)"
        using False tooLong st1 wc(1) by (simp add: placed_def Let_def)
      then show ?thesis by blast
    qed
  qed
  then obtain g st where
    s: "wrap_tokens ctx w (tok # toks) (lines, current) = wrap_tokens ctx w toks st"
       "content st = content (lines, current) @ g" "placed ctx w g tok"
    by blast
  from Cons.IH [OF toks, of "fst st" "snd st"] obtain gs where
    gs: "content (wrap_tokens ctx w toks st) = content st @ concat gs"
        "list_all2 (placed ctx w) gs toks"
    by auto
  have "content (wrap_tokens ctx w (tok # toks) (lines, current)) =
        content (lines, current) @ concat (g # gs)"
    using s(1,2) gs(1) by simp
  moreover have "list_all2 (placed ctx w) (g # gs) (tok # toks)"
    using s(3) gs(2) by simp
  ultimately show ?case by blast
qed

text \<open>
  Claim C3. Join the lines returned by \<open>wrapTextSmart\<close> with single spaces and cut the result
  into words again: the words are the pieces \<open>concat gs\<close>, where \<open>gs\<close> gives, for each word of
  the input in order, the pieces it was placed as. The pieces of a word put together are the
  word, and a word that is not wider than \<open>maxWidth\<close> is a single piece, the word itself.
\<close>

theorem wrapTextSmart_lossless:
  "\<exists>gs. tokens (joinSp (wrapTextSmart ctx text maxWidth)) = concat gs
      \<and> list_all2 (placed ctx maxWidth) gs (tokens text)"
proof -
  let ?toks = "filter truthy (splitWs [] text)"
  have "\<forall>t \<in> set ?toks. wsfree t \<and> t \<noteq> []"
    using tokens_are_words [of _ "text"] by (simp add: tokens_def)
  from wrap_tokens_content [OF this, of ctx maxWidth "[]" "[]"] obtain gs where
    gs: "content (wrap_tokens ctx maxWidth ?toks ([], [])) = concat gs"
        "list_all2 (placed ctx maxWidth) gs ?toks"
    by (auto simp: content_def)
  have "content (push st) = content st" for st
    by (cases st) (simp add: push_def content_def truthy_def)
  moreover have "content (push st) = concat (map tokens (fst (push st)))" for st
    by (cases st) (simp add: push_def content_def)
  ultimately have "concat (map tokens (wrapTextSmart ctx text maxWidth)) = concat gs"
    using gs(1) by (simp add: wrapTextSmart_def)
  then have "tokens (joinSp (wrapTextSmart ctx text maxWidth)) = concat gs"
    by (simp add: tokens_joinSp)
  moreover have "list_all2 (placed ctx maxWidth) gs (tokens text)"
    using gs(2) by (simp add: tokens_def)
  ultimately show ?thesis by blast
qed

lemma wrap_example_ab_cd:
  "wrapTextSmart (fixedPitch 10) (str ''ab cdefg'') 25 = [str ''ab'', str ''cd'', str ''ef'', str ''g'']"
  by (simp add: wrapTextSmart_def str_def isWhiteSpace_def push_def fixedPitch_def)

theorem wrapTextSmart_lossless_witness:
  "tokens (str ''ab cdefg'') = [str ''ab'', str ''cdefg''] \<and>
   fixedPitch 10 (str ''ab'') \<le> 25 \<and> \<not> fixedPitch 10 (str ''cdefg'') \<le> 25 \<and>
   (\<exists>gs. tokens (joinSp (wrapTextSmart (fixedPitch 10) (str ''ab cdefg'') 25)) = concat gs
      \<and> list_all2 (placed (fixedPitch 10) 25) gs (tokens (str ''ab cdefg'')))"
  using wrapTextSmart_lossless [of "fixedPitch 10" "str ''ab cdefg''" 25]
  by (simp add: tokens_def str_def isWhiteSpace_def fixedPitch_def)

subsection \<open>The three copies of the layout engine\<close>

lemma wrap_chars_copies:
  "wrap_chars_live ctx w tok st = wrap_chars ctx w tok st"
  "wrap_chars_gen ctx w tok st = wrap_chars ctx w tok st"
  by (induction ctx w tok st rule: wrap_chars.induct) (simp_all add: Let_def)

lemma push_copies: "push_live st = push st" "push_gen st = push st"
  by (simp_all add: push_live_def push_gen_def push_def)

lemma wrap_tokens_copies:
  "wrap_tokens_live ctx w toks st = wrap_tokens ctx w toks st"
  "wrap_tokens_gen ctx w toks st = wrap_tokens ctx w toks st"
  by (induction ctx w toks st rule: wrap_tokens.induct)
     (simp_all add: Let_def wrap_chars_copies push_copies split: prod.splits)

lemma wrapTextSmart_gen_eq: "wrapTextSmart_gen ctx s maxWidth = wrapTextSmart ctx s maxWidth"
  by (simp add: wrapTextSmart_gen_def wrapTextSmart_def wrap_tokens_copies push_copies)

text \<open>
  Claim C10. The copies of \<open>wrapTextSmart\<close> in the paginated wall page, in the live wall page
  and in the generator return the same lines for every measuring context, text and width.
\<close>

theorem wrapTextSmart_copies_agree:
  "wrapTextSmart_live ctx text maxWidth = wrapTextSmart ctx text maxWidth \<and>
   wrapTextSmart_gen ctx text maxWidth = wrapTextSmart ctx text maxWidth"
  by (simp add: wrapTextSmart_live_def wrapTextSmart_gen_def wrapTextSmart_def
        wrap_tokens_copies push_copies)

subsection \<open>Vertical placement\<close>

text \<open>
  The wall's \<open>renderCard\<close> clamps the start of the text block in line (lines 483 to 486);
  its text block is the generator's, which calls \<open>computeSafeStartY\<close>.
\<close>

lemma textRender_wall_gen:
  "textRender_wall cv drawn quote author palette font width height innerPadding qSize qLine aSize
       contentY contentX align innerMax =
   textRender_gen cv drawn quote author palette font width height innerPadding qSize qLine aSize
       (if truthy (trim author) then aSize * 0.6 else 0) contentY contentX align innerMax"
  unfolding textRender_wall_def textRender_gen_def computeSafeStartY_def wrapTextSmart_gen_eq Let_def
  by (rule refl)

text \<open>
  Claim C4. For a block height \<open>blockH \<ge> 0\<close> and safe bounds \<open>safeTop \<le> safeBottom\<close>: when the
  block is not taller than the safe zone, \<open>computeSafeStartY\<close> returns \<open>y\<close> with
  \<open>safeTop \<le> y\<close> and \<open>y + blockH \<le> safeBottom\<close>; when it is taller, the result is \<open>safeTop\<close>.
\<close>

theorem computeSafeStartY_contained:
  assumes "0 \<le> blockH" and "safeTop \<le> safeBottom"
  shows "(blockH \<le> safeBottom - safeTop \<longrightarrow>
            safeTop \<le> computeSafeStartY contentY blockH safeTop safeBottom \<and>
            computeSafeStartY contentY blockH safeTop safeBottom + blockH \<le> safeBottom) \<and>
         (blockH > safeBottom - safeTop \<longrightarrow>
            computeSafeStartY contentY blockH safeTop safeBottom = safeTop)"
  by (auto simp: computeSafeStartY_def Let_def)

theorem computeSafeStartY_contained_witness:
  "(0::real) \<le> 300 \<and> (97.2::real) \<le> 982.8 \<and> (300::real) \<le> 982.8 - 97.2 \<and>
   (97.2::real) \<le> computeSafeStartY 950 300 97.2 982.8 \<and>
   computeSafeStartY 950 300 97.2 982.8 + 300 \<le> 982.8 \<and>
   (1000::real) > 982.8 - 97.2 \<and>
   computeSafeStartY 561.6 1000 97.2 982.8 = 97.2"
  using computeSafeStartY_contained [of 300 "97.2" "982.8" 950]
        computeSafeStartY_contained [of 1000 "97.2" "982.8" "561.6"]
  by simp

subsection \<open>Text colours on a dark background\<close>

text \<open>
  Claim C5. When the average colour sampled under the text has relative luminance at most
  0.55, \<open>chooseTextColors\<close> returns the quote colour \<open>#FFFFFF\<close> and the author colour
  \<open>rgba(255,255,255,0.85)\<close>, whatever the palette is: the accent colour plays no part.
\<close>

theorem chooseTextColors_dark:
  assumes "sampleAverageRgb cv drawn (width * 0.22) (height * 0.3) (width * 0.56) (height * 0.4)
           = Some avg"
    and "relLuma avg \<le> 0.55"
  shows "chooseTextColors cv drawn width height palette =
         (str ''#FFFFFF'', str ''rgba(255,255,255,0.85)'')"
  using assms by (simp add: chooseTextColors_def Let_def)

lemma sample_flat_black:
  "sampleAverageRgb (flatCanvas (0, 0, 0, 255) 1) drawn (10 * 0.22) (10 * 0.3) (10 * 0.56) (10 * 0.4)
   = Some (0, 0, 0)"
  by (simp add: sampleAverageRgb_def flatCanvas_def Let_def numeral_eq_Suc sample_loop.simps)

theorem chooseTextColors_dark_witness:
  "sampleAverageRgb (flatCanvas (0, 0, 0, 255) 1) [] (10 * 0.22) (10 * 0.3) (10 * 0.56) (10 * 0.4)
     = Some (0, 0, 0) \<and>
   relLuma (0, 0, 0) \<le> 0.55 \<and>
   chooseTextColors (flatCanvas (0, 0, 0, 255) 1) [] 10 10 (mkPalette ''#0B1020'' ''#E6E6EA'' ''#7C3AED'')
     = (str ''#FFFFFF'', str ''rgba(255,255,255,0.85)'')"
proof -
  have l: "relLuma (0, 0, 0) \<le> 0.55" by (simp add: relLuma_def srgb_def)
  from chooseTextColors_dark [OF sample_flat_black l] sample_flat_black l
  show ?thesis by simp
qed

subsection \<open>Unknown tags\<close>






subsection \<open>Auto-grow sizing\<close>









subsection \<open>Determinism of the generator's renderer\<close>


















subsection \<open>A card without a quote\<close>

lemma noText_simps [simp]:
  "noText []" "noText (c # cs) \<longleftrightarrow> \<not> isFillText c \<and> noText cs"
  "noText (as @ bs) \<longleftrightarrow> noText as \<and> noText bs"
  by (auto simp: noText_def)

lemma noText_concat: "(\<And>x. x \<in> set xs \<Longrightarrow> noText (f x)) \<Longrightarrow> noText (concat (map f xs))"
  by (induction xs) simp_all

lemma noText_map: "(\<And>x. \<not> isFillText (f x)) \<Longrightarrow> noText (map f xs)"
  by (induction xs) simp_all

lemma noText_filter: "noText cs \<Longrightarrow> filter isFillText cs = []"
  by (induction cs) simp_all

lemma isFillText_simps [simp]:
  "isFillText (FillText s x y)"
  "\<not> isFillText (SetSize w h)" "\<not> isFillText Save" "\<not> isFillText Restore"
  "\<not> isFillText BeginPath" "\<not> isFillText ClosePath" "\<not> isFillText Clip"
  "\<not> isFillText Fill" "\<not> isFillText Stroke"
  "\<not> isFillText (MoveTo x y)" "\<not> isFillText (LineTo x y)"
  "\<not> isFillText (ArcTo a1 a2 a3 a4 a5)" "\<not> isFillText (Arc a1 a2 a3 a4 a5)"
  "\<not> isFillText (BezierCurveTo a1 a2 a3 a4 a5 a6)"
  "\<not> isFillText (FillRect a1 a2 a3 a4)" "\<not> isFillText (StrokeRect a1 a2 a3 a4)"
  "\<not> isFillText (Translate x y)" "\<not> isFillText (Rotate x)"
  "\<not> isFillText (FillStyle st)" "\<not> isFillText (StrokeStyle st)"
  "\<not> isFillText (GlobalAlpha x)" "\<not> isFillText (GlobalAlphaTimes x)"
  "\<not> isFillText (LineWidth x)" "\<not> isFillText (LineJoin s)" "\<not> isFillText (LineCap s)"
  "\<not> isFillText (TextAlign al)" "\<not> isFillText (TextBaseline s)" "\<not> isFillText (SetFont fn)"
  "\<not> isFillText (PutImageData px x y)"
  by (simp_all add: isFillText_def)

lemma noText_clipBlock: "noText (clipBlock width height radius)"
  by (simp add: clipBlock_def roundedRectPath_def Let_def)

lemma noText_stripes: "noText (stripes_loop width height i)"
proof (induction width height i rule: stripes_loop.induct)
  case (1 width height i)
  show ?case by (subst stripes_loop.simps) (simp add: 1)
qed

lemma noText_halftone_row: "noText (halftone_row seed width y x)"
proof (induction seed width y x rule: halftone_row.induct)
  case (1 seed width y x)
  show ?case by (subst halftone_row.simps) (simp add: 1 Let_def)
qed

lemma noText_halftone_rows: "noText (halftone_rows seed width height y)"
proof (induction seed width height y rule: halftone_rows.induct)
  case (1 seed width height y)
  show ?case by (subst halftone_rows.simps) (simp add: 1 noText_halftone_row)
qed

lemma noText_drawBackground:
  "noText (drawBackground cv drawn width height palette gradient seed bgType)"
  unfolding drawBackground_def Let_def
  by (simp add: noText_stripes noText_halftone_rows addGrain_def noText_map noText_concat
        paperSpeckle_def blob_def Let_def)

lemma noText_doodle: "noText (doodle width height seed i)"
  unfolding doodle_def Let_def drawTinyHeart_def drawTinyStar_def
  by (simp add: noText_map starVertex_def Let_def)

lemma noText_drawDoodles: "noText (drawDoodles width height color seed)"
  unfolding drawDoodles_def by (simp add: noText_concat noText_doodle)

lemma noText_layoutPositions_wall:
  "noText (fst (layoutPositions_wall width height innerPadding palette layout))"
  unfolding layoutPositions_wall_def Let_def by simp

lemma textRender_wall_blank:
  assumes "\<forall>c \<in> set quote. isWhiteSpace c"
  shows "\<exists>x y. filter isFillText
           (textRender_wall cv drawn quote author palette font width height innerPadding
              qSize qLine aSize contentY contentX align innerMax)
         = (if trim author = [] then [] else [FillText author x y])"
proof -
  have w: "wrapTextSmart ctx quote mw = []" for ctx mw
    using assms by (simp add: wrapTextSmart_def blank_tokens push_def)
  show ?thesis
    unfolding textRender_wall_def Let_def case_prod_beta w
    by (simp add: truthy_def)
qed

text \<open>
  Claim C9. For a quote that is empty or white space only, \<open>wrapTextSmart\<close> returns no line.
  The wall's \<open>renderCard\<close> is a total function (no step of it can raise on a card of its
  type); with a 2D context it draws the clip, the background and the doodles, and its only
  text call is the one for the author, when there is an author.
\<close>

theorem blank_quote_card:
  assumes "\<forall>c \<in> set (c_quote crd). isWhiteSpace c"
  shows "wrapTextSmart ctx (c_quote crd) maxWidth = [] \<and>
    (context2d cv \<longrightarrow>
       (\<exists>rest. renderCard_wall cv crd =
          clipBlock (wallWidth crd) (wallHeight crd) (c_radius crd)
          @ drawBackground cv (clipBlock (wallWidth crd) (wallHeight crd) (c_radius crd))
              (wallWidth crd) (wallHeight crd) (c_palette crd) (c_gradient crd) (c_seed crd)
              (c_bgType crd)
          @ drawDoodles (wallWidth crd) (wallHeight crd) (wallDoodleColor crd) (c_seed crd + 999)
          @ rest) \<and>
       (\<exists>x y. filter isFillText (renderCard_wall cv crd) =
          (if trim (c_author crd) = [] then [] else [FillText (c_author crd) x y])))"
proof -
  have w: "wrapTextSmart ctx (c_quote crd) maxWidth = []"
    using assms by (simp add: wrapTextSmart_def blank_tokens push_def)
  have r: "\<exists>rest. renderCard_wall cv crd =
          clipBlock (wallWidth crd) (wallHeight crd) (c_radius crd)
          @ drawBackground cv (clipBlock (wallWidth crd) (wallHeight crd) (c_radius crd))
              (wallWidth crd) (wallHeight crd) (c_palette crd) (c_gradient crd) (c_seed crd)
              (c_bgType crd)
          @ drawDoodles (wallWidth crd) (wallHeight crd) (wallDoodleColor crd) (c_seed crd + 999)
          @ rest"
    if "context2d cv"
    using that unfolding renderCard_wall_def Let_def case_prod_beta
    by (simp add: wallWidth_def wallHeight_def wallDoodleColor_def)
  have f: "\<exists>x y. filter isFillText (renderCard_wall cv crd) =
          (if trim (c_author crd) = [] then [] else [FillText (c_author crd) x y])"
    if "context2d cv"
    using that textRender_wall_blank [OF assms]
    unfolding renderCard_wall_def Let_def case_prod_beta
    by (simp add: noText_filter noText_clipBlock noText_drawBackground noText_drawDoodles
          noText_layoutPositions_wall)
  from w r f show ?thesis by blast
qed

theorem blank_quote_card_witness:
  "list_all isWhiteSpace (c_quote (exampleCard ''  '' ''Jane'')) \<and>
   wrapTextSmart (fixedPitch 10) (c_quote (exampleCard ''  '' ''Jane'')) 864 = [] \<and>
   context2d (flatCanvas (255, 255, 255, 255) 1) \<and>
   (\<exists>x y. filter isFillText (renderCard_wall (flatCanvas (255, 255, 255, 255) 1)
                               (exampleCard ''  '' ''Jane''))
          = [FillText (str ''Jane'') x y])"
proof -
  have b: "\<forall>c \<in> set (c_quote (exampleCard ''  '' ''Jane'')). isWhiteSpace c"
    by (simp add: exampleCard_def str_def isWhiteSpace_def)
  have c: "context2d (flatCanvas (255, 255, 255, 255) 1)" by (simp add: flatCanvas_def)
  have t: "trim (c_author (exampleCard ''  '' ''Jane'')) \<noteq> []"
    by (simp add: exampleCard_def trim_def str_def isWhiteSpace_def)
  have a: "c_author (exampleCard ''  '' ''Jane'') = str ''Jane''" by (simp add: exampleCard_def)
  from blank_quote_card [OF b, of "fixedPitch 10" 864 "flatCanvas (255, 255, 255, 255) 1"] b c t a
  show ?thesis by (simp add: list_all_iff)
qed

subsection \<open>Batches of designs\<close>

lemma seededRandom_range: "0 \<le> seededRandom seed \<and> seededRandom seed < 1"
  unfolding seededRandom_def Let_def by linarith

lemma pick_in_range:
  assumes "arr \<noteq> []"
  shows "nat \<lfloor>seededRandom seed * real (length arr)\<rfloor> < length arr"
proof -
  have n: "0 < real (length arr)" using assms by simp
  have "seededRandom seed * real (length arr) < 1 * real (length arr)"
    using seededRandom_range [of seed] n by (intro mult_strict_right_mono) simp_all
  then have "\<lfloor>seededRandom seed * real (length arr)\<rfloor> < int (length arr)"
    by (simp add: floor_less_iff)
  moreover have "0 \<le> \<lfloor>seededRandom seed * real (length arr)\<rfloor>"
    using seededRandom_range [of seed] by simp
  ultimately show ?thesis by (simp add: nat_less_iff)
qed








end
